theory Spec2Isabelle
  imports Complex_Main "HOL-Library.Log_Nat"
begin

unbundle bit_operations_syntax

section \<open>GSOF\_ArduBridge: the I2C bus access class \<open>ArduBridgeI2C\<close>\<close>

text \<open>
  A shallow embedding of \<^verbatim>\<open>src/GSOF_ArduBridge/ArduI2C.py\<close>. The class talks to the
  firmware through a serial bridge object \<^verbatim>\<open>self.comm\<close> (module \<^verbatim>\<open>BridgeSerial\<close>), which
  is not part of the sources at hand. The bridge is therefore a parameter of every
  operation: what it has been asked to do is recorded in a trace of events, and what a
  \<^verbatim>\<open>receive(n)\<close> call hands back is an arbitrary function of the trace so far and of
  \<open>n\<close>. Python integers are \<open>int\<close>, Python lists of integers are \<open>int list\<close>, and an
  exception that leaves a method is a value \<open>Inl e\<close>.
\<close>

subsection \<open>The serial bridge\<close>

text \<open>
  \<^verbatim>\<open>receive\<close> returns a two-element sequence \<^verbatim>\<open>reply\<close>: \<^verbatim>\<open>reply[0]\<close> is a status
  integer and \<^verbatim>\<open>reply[1]\<close> the list of bytes read.
\<close>

type_synonym reply = "int \<times> int list"

datatype event =
    Send "int list"      \<comment> \<open>\<^verbatim>\<open>self.comm.send(vDat)\<close>\<close>
  | SendReset            \<comment> \<open>\<^verbatim>\<open>self.comm.sendReset()\<close>\<close>
  | Receive int          \<comment> \<open>\<^verbatim>\<open>self.comm.receive(n)\<close>\<close>
  | Sleep real           \<comment> \<open>\<^verbatim>\<open>time.sleep(delay)\<close>\<close>

type_synonym trace = "event list"

type_synonym transport = "trace \<Rightarrow> int \<Rightarrow> reply"

definition comm_send :: "int list \<Rightarrow> trace \<Rightarrow> trace" where
  "comm_send vDat tr = tr @ [Send vDat]"


definition comm_receive :: "transport \<Rightarrow> int \<Rightarrow> trace \<Rightarrow> reply \<times> trace" where
  "comm_receive rx n tr = (rx tr n, tr @ [Receive n])"

definition time_sleep :: "real \<Rightarrow> trace \<Rightarrow> trace" where
  "time_sleep delay tr = tr @ [Sleep delay]"

text \<open>Observations on a trace: the packets sent, and the sizes of the receives asked for.\<close>

fun sends :: "trace \<Rightarrow> int list list" where
  "sends [] = []"
| "sends (Send vDat # tr) = vDat # sends tr"
| "sends (SendReset # tr) = sends tr"
| "sends (Receive n # tr) = sends tr"
| "sends (Sleep d # tr) = sends tr"

fun receives :: "trace \<Rightarrow> int list" where
  "receives [] = []"
| "receives (Receive n # tr) = n # receives tr"
| "receives (Send vDat # tr) = receives tr"
| "receives (SendReset # tr) = receives tr"
| "receives (Sleep d # tr) = receives tr"

subsection \<open>Python values and exceptions\<close>

datatype error = NameError | KeyError | IndexError | OverflowError | ValueError

text \<open>\<^verbatim>\<open>readRaw\<close> and \<^verbatim>\<open>readRegister\<close> return either a list of bytes or the integer \<open>-1\<close>.\<close>

datatype pyval = PyInt int | PyList "int list"

abbreviation ord :: "char \<Rightarrow> int" where
  "ord c \<equiv> of_char c"

subsection \<open>Python numbers\<close>



text \<open>\<open>pow2 e\<close> is \<open>2\<close> to the power \<open>e\<close>, and \<open>exponent x\<close>, for \<open>x > 0\<close>, the integer \<open>e\<close> with
  \<open>pow2 e \<le> x < pow2 (e + 1)\<close>.\<close>

definition pow2 :: "int \<Rightarrow> real" where
  "pow2 e = (if 0 \<le> e then 2 ^ nat e else 1 / 2 ^ nat (- e))"

definition exponent :: "real \<Rightarrow> int" where
  "exponent x =
     (if 1 \<le> x then bitlen \<lfloor>x\<rfloor> - 1
      else (let k = bitlen \<lfloor>1 / x\<rfloor> - 1
            in if x * 2 ^ nat k = 1 then - k else - k - 1))"





subsection \<open>The constants of \<^verbatim>\<open>__init__\<close>\<close>

definition RES :: "int \<rightharpoonup> string" where
  "RES = map_of [(1, ''OK''), (-1, ''ERR'')]"

definition I2C_PACKET_ID :: int where "I2C_PACKET_ID = ord CHR ''2''"
definition CMD_I2C_ADDRESS :: int where "CMD_I2C_ADDRESS = ord CHR ''A''"
definition CMD_I2C_LENGTH :: int where "CMD_I2C_LENGTH = ord CHR ''L''"
definition CMD_I2C_FREQ :: int where "CMD_I2C_FREQ = ord CHR ''F''"
definition CMD_I2C_WRITE_RESTART :: int where "CMD_I2C_WRITE_RESTART = ord CHR ''w''"
definition CMD_I2C_WRITE :: int where "CMD_I2C_WRITE = ord CHR ''W''"
definition CMD_I2C_READ_RESTART :: int where "CMD_I2C_READ_RESTART = ord CHR ''r''"
definition CMD_I2C_READ :: int where "CMD_I2C_READ = ord CHR ''R''"

definition ERROR_NONE :: int where "ERROR_NONE = ord CHR ''N''"
definition ERROR_UNESCAPE :: int where "ERROR_UNESCAPE = ord CHR ''U''"
definition ERROR_LENGTH :: int where "ERROR_LENGTH = ord CHR ''L''"
definition ERROR_READ :: int where "ERROR_READ = ord CHR ''R''"
definition ERROR_WRITEDATA :: int where "ERROR_WRITEDATA = ord CHR ''W''"
definition ERROR_SENDDATA :: int where "ERROR_SENDDATA = ord CHR ''S''"

definition ERROR :: "int \<rightharpoonup> string" where
  "ERROR = map_of
     [(ERROR_NONE, ''OK''),
      (ERROR_UNESCAPE, ''UNESCAPE''),
      (ERROR_LENGTH, ''LENGTH''),
      (ERROR_READ, ''READ''),
      (ERROR_WRITEDATA, ''WRITE-DATA''),
      (ERROR_SENDDATA, ''SEND-DATA'')]"

subsection \<open>The methods\<close>


definition writeRaw_vDat :: "int \<Rightarrow> int list \<Rightarrow> int list" where
  "writeRaw_vDat dev vByte =
     [I2C_PACKET_ID, CMD_I2C_ADDRESS, dev, CMD_I2C_LENGTH, int (length vByte), CMD_I2C_WRITE]
     @ vByte"

text \<open>
  In verbose mode the logging statement of \<^verbatim>\<open>writeRaw\<close> names \<^verbatim>\<open>reg\<close>, which is neither a
  parameter, a local nor a global of the module: once \<^verbatim>\<open>reply[1][0]\<close> has been read, the
  argument tuple \<^verbatim>\<open>(dev, reg, self.ERROR[res])\<close> raises \<^verbatim>\<open>NameError\<close> at its second
  component.
\<close>

definition writeRaw :: "transport \<Rightarrow> bool \<Rightarrow> int \<Rightarrow> int list \<Rightarrow> trace \<Rightarrow> (error + reply) \<times> trace" where
  "writeRaw rx v dev vByte tr =
     (let vDat = writeRaw_vDat dev vByte;
          tr1 = comm_send vDat tr;
          (reply, tr2) = comm_receive rx 1 tr1
      in if v then
           (if fst reply \<noteq> 0 then
              (case snd reply of
                 [] \<Rightarrow> (Inl IndexError, tr2)
               | res # _ \<Rightarrow> (Inl NameError, tr2))
            else (Inr reply, tr2))
         else (Inr reply, tr2))"

definition readRaw_vHdr :: "int \<Rightarrow> int \<Rightarrow> int list" where
  "readRaw_vHdr dev N =
     [I2C_PACKET_ID, CMD_I2C_ADDRESS, dev, CMD_I2C_LENGTH, N, CMD_I2C_READ]"

definition readRaw :: "transport \<Rightarrow> bool \<Rightarrow> int \<Rightarrow> int \<Rightarrow> trace \<Rightarrow> (error + pyval) \<times> trace" where
  "readRaw rx v dev N tr =
     (let vHdr = readRaw_vHdr dev N;
          tr1 = comm_send vHdr tr;
          (reply, tr2) = comm_receive rx 1 tr1
      in if fst reply \<noteq> 0 then
           (case snd reply of
              [] \<Rightarrow> (Inl IndexError, tr2)
            | n # _ \<Rightarrow>
                (let (reply, tr3) = comm_receive rx n tr2
                 in if fst reply \<noteq> 0 then (Inr (PyList (snd reply)), tr3)
                    else (Inr (PyInt (- 1)), tr3)))
         else (Inr (PyInt (- 1)), tr2))"

definition writeRegister_vDat :: "int \<Rightarrow> int \<Rightarrow> int list \<Rightarrow> int list" where
  "writeRegister_vDat dev reg vByte =
     [I2C_PACKET_ID, CMD_I2C_ADDRESS, dev, CMD_I2C_LENGTH, int (length vByte) + 1, CMD_I2C_WRITE,
      reg] @ vByte"

definition writeRegister ::
  "transport \<Rightarrow> bool \<Rightarrow> int \<Rightarrow> int \<Rightarrow> int list \<Rightarrow> trace \<Rightarrow> (error + reply) \<times> trace" where
  "writeRegister rx v dev reg vByte tr =
     (let vDat = writeRegister_vDat dev reg vByte;
          tr1 = comm_send vDat tr;
          (reply, tr2) = comm_receive rx 1 tr1
      in if v then
           (if fst reply \<noteq> 0 then
              (case snd reply of
                 [] \<Rightarrow> (Inl IndexError, tr2)
               | res # _ \<Rightarrow>
                   (case ERROR res of
                      None \<Rightarrow> (Inl KeyError, tr2)
                    | Some s \<Rightarrow> (Inr reply, tr2)))
            else (Inr reply, tr2))
         else (Inr reply, tr2))"

definition readRegister_vHdr :: "int \<Rightarrow> int \<Rightarrow> int list" where
  "readRegister_vHdr dev reg =
     [I2C_PACKET_ID, CMD_I2C_ADDRESS, dev, CMD_I2C_LENGTH, 1, CMD_I2C_WRITE_RESTART, reg]"

definition readRegister_vRd :: "int \<Rightarrow> int list" where
  "readRegister_vRd N = [I2C_PACKET_ID, CMD_I2C_LENGTH, N, CMD_I2C_READ]"

text \<open>
  The first half of \<^verbatim>\<open>readRegister\<close>: selecting the register, up to the point where
  \<^verbatim>\<open>err\<close> is known. It yields \<^verbatim>\<open>err\<close> and the trace.
\<close>

definition readRegister_select ::
  "transport \<Rightarrow> int \<Rightarrow> int \<Rightarrow> int \<Rightarrow> real \<Rightarrow> trace \<Rightarrow> bool \<times> trace" where
  "readRegister_select rx dev reg N delay tr =
     (let vHdr = readRegister_vHdr dev reg;
          vRd = readRegister_vRd N
      in if delay \<le> 0 then
           (let tr1 = comm_send (vHdr @ vRd) tr;
                (reply, tr2) = comm_receive rx 1 tr1
            in if fst reply \<noteq> 0 \<and> fst reply \<noteq> - 1 then (False, tr2) else (True, tr2))
         else
           (let tr1 = comm_send vHdr tr;
                (reply, tr2) = comm_receive rx 1 tr1
            in if fst reply \<noteq> 0 \<and> fst reply \<noteq> - 1 then
                 (let tr3 = (if delay > 0 then time_sleep delay tr2 else tr2)
                  in (False, comm_send vRd tr3))
               else (True, tr2)))"

definition readRegister ::
  "transport \<Rightarrow> bool \<Rightarrow> int \<Rightarrow> int \<Rightarrow> int \<Rightarrow> real \<Rightarrow> trace \<Rightarrow> (error + pyval) \<times> trace" where
  "readRegister rx v dev reg N delay tr =
     (let (err, tr') = readRegister_select rx dev reg N delay tr
      in if err = False then
           (let (reply, tr2) = comm_receive rx 1 tr'
            in if fst reply \<noteq> 0 then
                 (case snd reply of
                    [] \<Rightarrow> (Inl IndexError, tr2)
                  | n # _ \<Rightarrow>
                      (let (reply, tr3) = comm_receive rx n tr2
                       in if fst reply \<noteq> 0 then (Inr (PyList (snd reply)), tr3)
                          else (Inr (PyInt (- 1)), tr3)))
               else (Inr (PyInt (- 1)), tr2))
         else (Inr (PyInt (- 1)), tr'))"

subsection \<open>Scripted transports\<close>

text \<open>
  A bridge whose replies are laid down in advance: the \<open>i\<close>-th call of \<^verbatim>\<open>receive\<close>
  hands back the \<open>i\<close>-th reply of the script, whatever size was asked for, and status
  \<open>0\<close> with no bytes once the script is used up. It supplies the concrete inputs below.
\<close>

definition scripted :: "reply list \<Rightarrow> transport" where
  "scripted script tr n =
     (if length (receives tr) < length script then script ! length (receives tr) else (0, []))"

section \<open>Properties\<close>

subsection \<open>Auxiliary facts\<close>

lemmas cmd_defs =
  I2C_PACKET_ID_def CMD_I2C_ADDRESS_def CMD_I2C_LENGTH_def CMD_I2C_FREQ_def
  CMD_I2C_WRITE_RESTART_def CMD_I2C_WRITE_def CMD_I2C_READ_RESTART_def CMD_I2C_READ_def

lemmas error_defs =
  ERROR_NONE_def ERROR_UNESCAPE_def ERROR_LENGTH_def ERROR_READ_def
  ERROR_WRITEDATA_def ERROR_SENDDATA_def

lemma sends_append: "sends (tr @ tr') = sends tr @ sends tr'"
  by (induction tr rule: sends.induct) simp_all

lemma receives_append: "receives (tr @ tr') = receives tr @ receives tr'"
  by (induction tr rule: receives.induct) simp_all

lemma writeRaw_trace:
  "snd (writeRaw rx v dev vByte tr) = tr @ [Send (writeRaw_vDat dev vByte), Receive 1]"
  by (simp add: writeRaw_def comm_send_def comm_receive_def Let_def split: list.split)

lemma writeRaw_quiet:
  "fst (writeRaw rx False dev vByte tr) = Inr (rx (tr @ [Send (writeRaw_vDat dev vByte)]) 1)"
  by (simp add: writeRaw_def comm_send_def comm_receive_def Let_def)

lemma writeRegister_trace:
  "snd (writeRegister rx v dev reg vByte tr) =
     tr @ [Send (writeRegister_vDat dev reg vByte), Receive 1]"
  by (simp add: writeRegister_def comm_send_def comm_receive_def Let_def
        split: list.split option.split)

lemma writeRegister_quiet:
  "fst (writeRegister rx False dev reg vByte tr) =
     Inr (rx (tr @ [Send (writeRegister_vDat dev reg vByte)]) 1)"
  by (simp add: writeRegister_def comm_send_def comm_receive_def Let_def)

lemma readRegister_select_rejected:
  assumes "fst (rx (tr @ [Send (if delay \<le> 0 then readRegister_vHdr dev reg @ readRegister_vRd N
                                 else readRegister_vHdr dev reg)]) 1) \<in> {0, - 1}"
  shows "readRegister_select rx dev reg N delay tr =
           (True, tr @ [Send (if delay \<le> 0 then readRegister_vHdr dev reg @ readRegister_vRd N
                              else readRegister_vHdr dev reg), Receive 1])"
  using assms
  by (cases "delay \<le> 0")
     (simp_all add: readRegister_select_def comm_send_def comm_receive_def Let_def)

lemma readRegister_select_accepted:
  assumes "fst (rx (tr @ [Send (if delay \<le> 0 then readRegister_vHdr dev reg @ readRegister_vRd N
                                 else readRegister_vHdr dev reg)]) 1) \<notin> {0, - 1}"
  shows "readRegister_select rx dev reg N delay tr =
           (False, 
            if delay \<le> 0 then tr @ [Send (readRegister_vHdr dev reg @ readRegister_vRd N), Receive 1]
            else tr @ [Send (readRegister_vHdr dev reg), Receive 1, Sleep delay,
                       Send (readRegister_vRd N)])"
  using assms
  by (cases "delay \<le> 0")
     (simp_all add: readRegister_select_def comm_send_def comm_receive_def time_sleep_def Let_def)

lemma readRegister_rejected:
  assumes "fst (rx (tr @ [Send (if delay \<le> 0 then readRegister_vHdr dev reg @ readRegister_vRd N
                                 else readRegister_vHdr dev reg)]) 1) \<in> {0, - 1}"
  shows "readRegister rx v dev reg N delay tr =
           (Inr (PyInt (- 1)),
            tr @ [Send (if delay \<le> 0 then readRegister_vHdr dev reg @ readRegister_vRd N
                        else readRegister_vHdr dev reg), Receive 1])"
  using assms by (simp add: readRegister_def readRegister_select_rejected)

lemma readRegister_accepted:
  assumes "fst (rx (tr @ [Send (if delay \<le> 0 then readRegister_vHdr dev reg @ readRegister_vRd N
                                 else readRegister_vHdr dev reg)]) 1) \<notin> {0, - 1}"
    and "tr' = (if delay \<le> 0 then tr @ [Send (readRegister_vHdr dev reg @ readRegister_vRd N), Receive 1]
            else tr @ [Send (readRegister_vHdr dev reg), Receive 1, Sleep delay,
                       Send (readRegister_vRd N)])"
  shows "readRegister rx v dev reg N delay tr =
           (if fst (rx tr' 1) \<noteq> 0 then
              (case snd (rx tr' 1) of
                 [] \<Rightarrow> (Inl IndexError, tr' @ [Receive 1])
               | n # _ \<Rightarrow>
                   (if fst (rx (tr' @ [Receive 1]) n) \<noteq> 0
                    then (Inr (PyList (snd (rx (tr' @ [Receive 1]) n))), tr' @ [Receive 1, Receive n])
                    else (Inr (PyInt (- 1)), tr' @ [Receive 1, Receive n])))
            else (Inr (PyInt (- 1)), tr' @ [Receive 1]))"
  using assms
  by (simp add: readRegister_def readRegister_select_accepted comm_receive_def Let_def
        split: list.split)

lemma readRaw_unfold:
  "readRaw rx v dev N tr =
     (let tr' = tr @ [Send (readRaw_vHdr dev N)] in
      if fst (rx tr' 1) \<noteq> 0 then
        (case snd (rx tr' 1) of
           [] \<Rightarrow> (Inl IndexError, tr' @ [Receive 1])
         | n # _ \<Rightarrow>
             (if fst (rx (tr' @ [Receive 1]) n) \<noteq> 0
              then (Inr (PyList (snd (rx (tr' @ [Receive 1]) n))), tr' @ [Receive 1, Receive n])
              else (Inr (PyInt (- 1)), tr' @ [Receive 1, Receive n])))
      else (Inr (PyInt (- 1)), tr' @ [Receive 1]))"
  by (simp add: readRaw_def comm_send_def comm_receive_def Let_def split: list.split)


lemma floor_bitlen_bounds:
  fixes y :: real
  assumes "1 \<le> y"
  shows "2 ^ nat (bitlen \<lfloor>y\<rfloor> - 1) \<le> y" and "y < 2 * 2 ^ nat (bitlen \<lfloor>y\<rfloor> - 1)"
    and "1 \<le> bitlen \<lfloor>y\<rfloor>"
proof -
  from assms have pos: "0 < \<lfloor>y\<rfloor>" by simp
  then show one: "1 \<le> bitlen \<lfloor>y\<rfloor>"
    using bitlen_eq_zero_iff [of "\<lfloor>y\<rfloor>"] bitlen_nonneg [of "\<lfloor>y\<rfloor>"] by linarith
  have "2 ^ nat (bitlen \<lfloor>y\<rfloor> - 1) \<le> \<lfloor>y\<rfloor>"
    using bitlen_bounds [OF pos] by simp
  then have "(2::real) ^ nat (bitlen \<lfloor>y\<rfloor> - 1) \<le> of_int \<lfloor>y\<rfloor>"
    by (simp only: numeral_power_le_of_int_cancel_iff)
  then show "2 ^ nat (bitlen \<lfloor>y\<rfloor> - 1) \<le> y"
    using of_int_floor_le [of y] by linarith
  have "nat (bitlen \<lfloor>y\<rfloor>) = Suc (nat (bitlen \<lfloor>y\<rfloor> - 1))"
    using one by simp
  then have "\<lfloor>y\<rfloor> < 2 * 2 ^ nat (bitlen \<lfloor>y\<rfloor> - 1)"
    using bitlen_bounds [OF pos] by simp
  then have "\<lfloor>y\<rfloor> + 1 \<le> 2 * 2 ^ nat (bitlen \<lfloor>y\<rfloor> - 1)" by simp
  then have "(of_int (\<lfloor>y\<rfloor> + 1) :: real) \<le> of_int (2 * 2 ^ nat (bitlen \<lfloor>y\<rfloor> - 1))"
    by (simp only: of_int_le_iff)
  then have "of_int \<lfloor>y\<rfloor> + 1 \<le> 2 * (2::real) ^ nat (bitlen \<lfloor>y\<rfloor> - 1)"
    by (simp only: of_int_add of_int_mult of_int_power of_int_numeral of_int_1)
  moreover have "y < of_int \<lfloor>y\<rfloor> + 1" by linarith
  ultimately show "y < 2 * 2 ^ nat (bitlen \<lfloor>y\<rfloor> - 1)" by linarith
qed

lemma pow2_Suc: "pow2 (e + 1) = 2 * pow2 e"
proof (cases "0 \<le> e")
  case True
  then show ?thesis by (simp add: pow2_def nat_add_distrib)
next
  case False
  then have "nat (- e) = Suc (nat (- (e + 1)))" by simp
  with False show ?thesis by (simp add: pow2_def)
qed

lemma exponent_bounds:
  assumes "0 < x"
  shows "pow2 (exponent x) \<le> x \<and> x < pow2 (exponent x + 1)"
proof -
  have "pow2 (exponent x) \<le> x \<and> x < 2 * pow2 (exponent x)"
  proof (cases "1 \<le> x")
    case True
    note b = floor_bitlen_bounds [OF True]
    from b(3) have "pow2 (bitlen \<lfloor>x\<rfloor> - 1) = 2 ^ nat (bitlen \<lfloor>x\<rfloor> - 1)"
      by (simp add: pow2_def)
    with True b(1,2) show ?thesis
      by (simp add: exponent_def)
  next
    case False
    define k where "k = nat (bitlen \<lfloor>1 / x\<rfloor> - 1)"
    from False assms have y: "1 \<le> 1 / x" by simp
    note b = floor_bitlen_bounds [OF y, folded k_def]
    from b(3) have kk: "bitlen \<lfloor>1 / x\<rfloor> - 1 = int k" by (simp add: k_def)
    from b(1) assms have up: "x * 2 ^ k \<le> 1" by (simp add: field_simps)
    from b(2) assms have lo: "1 < x * (2 * 2 ^ k)" by (simp add: field_simps)
    show ?thesis
    proof (cases "x * 2 ^ k = 1")
      case True
      with False have "k \<noteq> 0" by (cases k) auto
      then have "pow2 (- int k) = 1 / 2 ^ k" by (simp add: pow2_def)
      moreover from True have "x = 1 / 2 ^ k" by (simp add: field_simps)
      ultimately have "pow2 (- int k) = x" by simp
      with True False assms show ?thesis
        by (simp add: exponent_def Let_def kk k_def [symmetric])
    next
      case ne: False
      have "nat (- (- int k - 1)) = Suc k" by simp
      then have p: "pow2 (- int k - 1) = 1 / (2 * 2 ^ k)"
        by (simp add: pow2_def)
      from lo assms have "1 / (2 * 2 ^ k) < x" by (simp add: field_simps)
      moreover from up ne have "x * 2 ^ k < 1" by simp
      then have "x < 1 / 2 ^ k" by (simp add: field_simps)
      ultimately show ?thesis
        using False ne p by (simp add: exponent_def Let_def kk k_def [symmetric])
    qed
  qed
  then show ?thesis by (simp only: pow2_Suc)
qed







lemmas pkt_defs = readRegister_vHdr_def readRegister_vRd_def readRaw_vHdr_def
  writeRaw_vDat_def writeRegister_vDat_def

subsection \<open>Writing a register\<close>

text \<open>
  Claim C1. For every device address \<open>dev\<close>, register \<open>reg\<close> and payload \<open>vByte\<close>,
  \<^verbatim>\<open>writeRegister(dev, reg, vByte)\<close> hands the bridge exactly one packet, the bytes
  \<^verbatim>\<open>'2', 'A', dev, 'L', len(vByte)+1, 'W', reg\<close> followed by the payload, and then asks
  for one reply byte; this holds whatever the bridge answers and whether or not the
  verbose flag is set. For \<open>dev = 0x14\<close>, \<open>reg = 0x10\<close>, \<open>vByte = [0, 1, 2]\<close> the packet
  is \<^verbatim>\<open>'2', 'A', 0x14, 'L', 4, 'W', 0x10, 0x00, 0x01, 0x02\<close>.
\<close>

theorem writeRegister_wire_bytes:
  "snd (writeRegister rx v dev reg vByte tr) =
     tr @ [Send ([ord CHR ''2'', ord CHR ''A'', dev, ord CHR ''L'', int (length vByte) + 1,
                  ord CHR ''W'', reg] @ vByte),
           Receive 1]
   \<and> sends (snd (writeRegister rx v dev reg vByte tr)) =
     sends tr @ [[ord CHR ''2'', ord CHR ''A'', dev, ord CHR ''L'', int (length vByte) + 1,
                  ord CHR ''W'', reg] @ vByte]
   \<and> sends (snd (writeRegister rx v 0x14 0x10 [0, 1, 2] [])) =
     [[ord CHR ''2'', ord CHR ''A'', 0x14, ord CHR ''L'', 4, ord CHR ''W'', 0x10, 0x00, 0x01, 0x02]]"
  by (simp add: writeRegister_trace writeRegister_vDat_def cmd_defs sends_append)

subsection \<open>Reading a register without delay\<close>

text \<open>
  Claim C2. For every \<open>dev\<close>, \<open>reg\<close> and count \<open>N\<close>, \<^verbatim>\<open>readRegister(dev, reg, N, delay=0)\<close>
  sends exactly one packet, the write-restart packet and the read request joined:
  \<^verbatim>\<open>'2', 'A', dev, 'L', 1, 'w', reg, '2', 'L', N, 'R'\<close>. When the bridge then reports a
  received acknowledgment (status neither 0 nor -1), next a received count byte \<open>k\<close>
  (status not 0) and last, for the request of \<open>k\<close> bytes, a received payload (status
  not 0), the call returns that payload, having asked for 1, 1 and \<open>k\<close> bytes. In the
  scenario \<open>dev = 0x14\<close>, \<open>reg = 0x10\<close>, \<open>N = 3\<close> with replies \<^verbatim>\<open>[0x01]\<close>, \<^verbatim>\<open>[0x03]\<close>,
  \<^verbatim>\<open>[0x11, 0x22, 0x33]\<close> it returns \<^verbatim>\<open>[0x11, 0x22, 0x33]\<close>.
\<close>

theorem readRegister_zero_delay:
  "(let pkt = [ord CHR ''2'', ord CHR ''A'', dev, ord CHR ''L'', 1, ord CHR ''w'', reg,
               ord CHR ''2'', ord CHR ''L'', N, ord CHR ''R''];
        t1 = tr @ [Send pkt];
        t2 = t1 @ [Receive 1];
        t3 = t2 @ [Receive 1]
    in sends (snd (readRegister rx v dev reg N 0 tr)) = sends tr @ [pkt]
       \<and> (fst (rx t1 1) \<noteq> 0 \<and> fst (rx t1 1) \<noteq> - 1
            \<and> rx t2 1 = (s2, k # ks) \<and> s2 \<noteq> 0
            \<and> rx t3 k = (s3, payload) \<and> s3 \<noteq> 0
          \<longrightarrow> fst (readRegister rx v dev reg N 0 tr) = Inr (PyList payload)
              \<and> receives (snd (readRegister rx v dev reg N 0 tr)) = receives tr @ [1, 1, k]))"
proof -
  define pkt where "pkt = readRegister_vHdr dev reg @ readRegister_vRd N"
  have pkt: "pkt = [ord CHR ''2'', ord CHR ''A'', dev, ord CHR ''L'', 1, ord CHR ''w'', reg,
               ord CHR ''2'', ord CHR ''L'', N, ord CHR ''R'']"
    by (simp add: pkt_def pkt_defs cmd_defs)
  have one: "sends (snd (readRegister rx v dev reg N 0 tr)) = sends tr @ [pkt]"
  proof (cases "fst (rx (tr @ [Send pkt]) 1) \<in> {0, - 1}")
    case True
    then show ?thesis
      by (simp add: readRegister_rejected sends_append pkt_def)
  next
    case False
    then show ?thesis
      by (simp add: readRegister_accepted [where tr' = "tr @ [Send pkt, Receive 1]"]
            sends_append pkt_def split: list.split)
  qed
  have two: "fst (readRegister rx v dev reg N 0 tr) = Inr (PyList payload)
       \<and> receives (snd (readRegister rx v dev reg N 0 tr)) = receives tr @ [1, 1, k]"
    if "fst (rx (tr @ [Send pkt]) 1) \<noteq> 0" "fst (rx (tr @ [Send pkt]) 1) \<noteq> - 1"
      "rx (tr @ [Send pkt, Receive 1]) 1 = (s2, k # ks)" "s2 \<noteq> 0"
      "rx (tr @ [Send pkt, Receive 1, Receive 1]) k = (s3, payload)" "s3 \<noteq> 0"
    using that
    by (simp add: readRegister_accepted [where tr' = "tr @ [Send pkt, Receive 1]"]
          receives_append pkt_def)
  show ?thesis
    using one two unfolding pkt by (simp add: Let_def)
qed

theorem readRegister_zero_delay_witness:
  "sends (snd (readRegister (scripted [(1, [0x01]), (1, [0x03]), (1, [0x11, 0x22, 0x33])])
                 False 0x14 0x10 3 0 [])) =
     [[ord CHR ''2'', ord CHR ''A'', 0x14, ord CHR ''L'', 1, ord CHR ''w'', 0x10,
       ord CHR ''2'', ord CHR ''L'', 3, ord CHR ''R'']]
   \<and> fst (readRegister (scripted [(1, [0x01]), (1, [0x03]), (1, [0x11, 0x22, 0x33])])
             False 0x14 0x10 3 0 []) = Inr (PyList [0x11, 0x22, 0x33])
   \<and> receives (snd (readRegister (scripted [(1, [0x01]), (1, [0x03]), (1, [0x11, 0x22, 0x33])])
                 False 0x14 0x10 3 0 [])) = [1, 1, 3]"
  using readRegister_zero_delay [where tr = "[]"
      and rx = "scripted [(1, [0x01]), (1, [0x03]), (1, [0x11, 0x22, 0x33])]"
      and v = False and dev = "0x14" and reg = "0x10" and N = 3
      and ?s2.0 = 1 and k = 3 and ks = "[]" and ?s3.0 = 1 and payload = "[0x11, 0x22, 0x33]"]
  by (simp add: scripted_def Let_def)

subsection \<open>The acknowledgment of the register selection\<close>

text \<open>
  Claim C3, as amended. \<^verbatim>\<open>readRegister\<close> looks at the status \<^verbatim>\<open>reply[0]\<close> of the
  acknowledgment receive, never at the acknowledgment byte itself. For every call
  \<^verbatim>\<open>readRegister(dev, reg, N, delay)\<close>: if that status is 0 or -1, the call returns
  \<open>-1\<close> and performs no further receive (one receive of one byte in all); otherwise,
  whatever byte was received, firmware error codes included, the call goes on to a
  second receive, the one for the count byte.
\<close>

theorem readRegister_ack_status:
  "(let first = (if delay \<le> 0 then readRegister_vHdr dev reg @ readRegister_vRd N
                 else readRegister_vHdr dev reg);
        ack = rx (tr @ [Send first]) 1;
        r = readRegister rx v dev reg N delay tr
    in if fst ack = 0 \<or> fst ack = - 1
       then fst r = Inr (PyInt (- 1)) \<and> snd r = tr @ [Send first, Receive 1]
            \<and> receives (snd r) = receives tr @ [1]
       else take (length (receives tr) + 2) (receives (snd r)) = receives tr @ [1, 1])"
proof (cases "fst (rx (tr @ [Send (if delay \<le> 0
        then readRegister_vHdr dev reg @ readRegister_vRd N
        else readRegister_vHdr dev reg)]) 1) \<in> {0, - 1}")
  case True
  then show ?thesis
    by (auto simp add: readRegister_rejected receives_append Let_def)
next
  case False
  then show ?thesis
    by (cases "delay \<le> 0")
       (simp_all add: readRegister_accepted [where tr' = "if delay \<le> 0
            then tr @ [Send (readRegister_vHdr dev reg @ readRegister_vRd N), Receive 1]
            else tr @ [Send (readRegister_vHdr dev reg), Receive 1, Sleep delay,
                       Send (readRegister_vRd N)]"] receives_append Let_def split: list.split)
qed

theorem readRegister_ack_status_witness:
  "fst (readRegister (scripted [(- 1, [])]) False 0x14 0x10 3 0 []) = Inr (PyInt (- 1))
   \<and> receives (snd (readRegister (scripted [(- 1, [])]) False 0x14 0x10 3 0 [])) = [1]
   \<and> fst (readRegister (scripted []) False 0x14 0x10 3 (1 / 2) []) = Inr (PyInt (- 1))
   \<and> receives (snd (readRegister (scripted []) False 0x14 0x10 3 (1 / 2) [])) = [1]
   \<and> take 2 (receives (snd (readRegister
         (scripted [(1, [0x4C]), (1, [0x03]), (1, [0x11, 0x22, 0x33])]) False 0x14 0x10 3 0 [])))
       = [1, 1]"
  using readRegister_ack_status [where tr = "[]" and rx = "scripted [(- 1, [])]"
      and v = False and dev = "0x14" and reg = "0x10" and N = 3 and delay = 0]
    readRegister_ack_status [where tr = "[]" and rx = "scripted []"
      and v = False and dev = "0x14" and reg = "0x10" and N = 3 and delay = "1 / 2"]
    readRegister_ack_status [where tr = "[]"
      and rx = "scripted [(1, [0x4C]), (1, [0x03]), (1, [0x11, 0x22, 0x33])]"
      and v = False and dev = "0x14" and reg = "0x10" and N = 3 and delay = 0]
  by (simp add: scripted_def Let_def numeral_2_eq_2)

text \<open>
  Claim C3 as first stated fails: with the acknowledgment byte \<^verbatim>\<open>0x4C\<close> (the key of
  \<^verbatim>\<open>'LENGTH'\<close> in \<^verbatim>\<open>self.ERROR\<close>) received under status 1, the call does not stop; it
  receives the count and the payload and returns the payload.
\<close>

theorem readRegister_error_ack_byte_counterexample:
  "fst (readRegister (scripted [(1, [0x4C]), (1, [0x03]), (1, [0x11, 0x22, 0x33])])
          False 0x14 0x10 3 0 []) = Inr (PyList [0x11, 0x22, 0x33])
   \<and> receives (snd (readRegister (scripted [(1, [0x4C]), (1, [0x03]), (1, [0x11, 0x22, 0x33])])
                     False 0x14 0x10 3 0 [])) = [1, 1, 3]
   \<and> ERROR 0x4C = Some ''LENGTH''"
  by (simp add: readRegister_def readRegister_select_def comm_send_def comm_receive_def
        scripted_def pkt_defs cmd_defs ERROR_def error_defs Let_def)

subsection \<open>Setting the bus frequency\<close>




subsection \<open>Payloads longer than a length byte can count\<close>

text \<open>
  Claim C5, as amended. \<^verbatim>\<open>writeRaw\<close> and \<^verbatim>\<open>writeRegister\<close> do not check the length of
  the payload. For every payload of more than 255 bytes they send the packet all the
  same, its length entry being the integer \<^verbatim>\<open>len(vByte)\<close> (for \<^verbatim>\<open>writeRegister\<close>,
  \<^verbatim>\<open>len(vByte)+1\<close>), which exceeds 255 and is not reduced to eight bits; they then ask
  for the reply byte and, with the verbose flag off, return the reply of the bridge.
\<close>

theorem write_long_payload_sent:
  assumes "255 < length vByte"
  shows "snd (writeRaw rx v dev vByte tr) = tr @ [Send (writeRaw_vDat dev vByte), Receive 1]
    \<and> writeRaw_vDat dev vByte ! 4 = int (length vByte)
    \<and> 255 < writeRaw_vDat dev vByte ! 4
    \<and> fst (writeRaw rx False dev vByte tr) = Inr (rx (tr @ [Send (writeRaw_vDat dev vByte)]) 1)
    \<and> snd (writeRegister rx v dev reg vByte tr) =
        tr @ [Send (writeRegister_vDat dev reg vByte), Receive 1]
    \<and> writeRegister_vDat dev reg vByte ! 4 = int (length vByte) + 1
    \<and> 256 < writeRegister_vDat dev reg vByte ! 4
    \<and> fst (writeRegister rx False dev reg vByte tr) =
        Inr (rx (tr @ [Send (writeRegister_vDat dev reg vByte)]) 1)"
  using assms
  by (simp add: writeRaw_trace writeRaw_quiet writeRegister_trace writeRegister_quiet
        writeRaw_vDat_def writeRegister_vDat_def)

theorem write_long_payload_sent_witness:
  "255 < length (replicate 256 (0::int))
   \<and> writeRaw_vDat 0x14 (replicate 256 0) ! 4 = 256
   \<and> fst (writeRaw (scripted [(1, [0x4E])]) False 0x14 (replicate 256 0) []) = Inr (1, [0x4E])
   \<and> writeRegister_vDat 0x14 0x10 (replicate 256 0) ! 4 = 257
   \<and> fst (writeRegister (scripted [(1, [0x4E])]) False 0x14 0x10 (replicate 256 0) []) =
       Inr (1, [0x4E])"
  using write_long_payload_sent [where vByte = "replicate 256 0" and dev = "0x14" and reg = "0x10"
      and tr = "[]" and rx = "scripted [(1, [0x4E])]" and v = False]
  by (simp add: scripted_def)

text \<open>
  Claim C5 as first stated fails: for a payload of 256 zero bytes both methods send
  a packet (length entries 256 and 257) and return the bridge's reply; no error is
  raised.
\<close>

theorem write_long_payload_counterexample:
  "255 < length (replicate 256 (0::int))
   \<and> fst (writeRaw (scripted [(1, [0x4E])]) False 0x14 (replicate 256 0) []) = Inr (1, [0x4E])
   \<and> snd (writeRaw (scripted [(1, [0x4E])]) False 0x14 (replicate 256 0) []) =
       [Send ([ord CHR ''2'', ord CHR ''A'', 0x14, ord CHR ''L'', 256, ord CHR ''W'']
              @ replicate 256 0), Receive 1]
   \<and> fst (writeRegister (scripted [(1, [0x4E])]) False 0x14 0x10 (replicate 256 0) []) =
       Inr (1, [0x4E])
   \<and> snd (writeRegister (scripted [(1, [0x4E])]) False 0x14 0x10 (replicate 256 0) []) =
       [Send ([ord CHR ''2'', ord CHR ''A'', 0x14, ord CHR ''L'', 257, ord CHR ''W'', 0x10]
              @ replicate 256 0), Receive 1]"
  by (simp add: writeRaw_def writeRegister_def comm_send_def comm_receive_def
        scripted_def pkt_defs cmd_defs Let_def)

subsection \<open>The count byte of a raw read\<close>




subsection \<open>Reading a register with a delay\<close>

text \<open>
  Claim C7, as amended. \<^verbatim>\<open>readRegister\<close> judges the register selection by the status
  \<^verbatim>\<open>reply[0]\<close> of the acknowledgment receive, never by the acknowledgment byte. For
  every call \<^verbatim>\<open>readRegister(dev, reg, N, delay)\<close> with \<open>delay > 0\<close>: when that status is
  neither 0 nor -1, whatever byte was received, exactly two packets are sent, first the
  write-restart packet alone and then the read request, and between the two lie the
  acknowledgment receive and the call \<^verbatim>\<open>time.sleep(delay)\<close> (taken to return); when the
  status is 0 or -1, the write-restart packet is the only packet sent, so nothing is
  sent for the read phase.
\<close>

theorem readRegister_positive_delay:
  assumes "0 < delay"
  shows "(let vHdr = [ord CHR ''2'', ord CHR ''A'', dev, ord CHR ''L'', 1, ord CHR ''w'', reg];
              vRd = [ord CHR ''2'', ord CHR ''L'', N, ord CHR ''R''];
              ack = rx (tr @ [Send vHdr]) 1;
              r = readRegister rx v dev reg N delay tr
          in if fst ack \<noteq> 0 \<and> fst ack \<noteq> - 1
             then sends (snd r) = sends tr @ [vHdr, vRd]
                  \<and> take (length tr + 4) (snd r) =
                      tr @ [Send vHdr, Receive 1, Sleep delay, Send vRd]
             else sends (snd r) = sends tr @ [vHdr]
                  \<and> snd r = tr @ [Send vHdr, Receive 1])"
proof -
  have hdr: "[ord CHR ''2'', ord CHR ''A'', dev, ord CHR ''L'', 1, ord CHR ''w'', reg] =
      readRegister_vHdr dev reg"
    by (simp add: pkt_defs cmd_defs)
  have rd: "[ord CHR ''2'', ord CHR ''L'', N, ord CHR ''R''] = readRegister_vRd N"
    by (simp add: pkt_defs cmd_defs)
  from assms have pos: "\<not> delay \<le> 0" by simp
  show ?thesis
  proof (cases "fst (rx (tr @ [Send (readRegister_vHdr dev reg)]) 1) \<in> {0, - 1}")
    case True
    with pos show ?thesis
      unfolding hdr rd by (auto simp add: readRegister_rejected sends_append Let_def)
  next
    case False
    with pos show ?thesis
      unfolding hdr rd 
      by (simp add: readRegister_accepted [where tr' = "tr @ [Send (readRegister_vHdr dev reg),
              Receive 1, Sleep delay, Send (readRegister_vRd N)]"]
            sends_append Let_def split: list.split)
  qed
qed

theorem readRegister_positive_delay_witness:
  "(0::real) < 1 / 2
   \<and> snd (readRegister (scripted [(1, [0x01]), (1, [0x03]), (1, [0x11, 0x22, 0x33])])
            False 0x14 0x10 3 (1 / 2) []) =
       [Send [ord CHR ''2'', ord CHR ''A'', 0x14, ord CHR ''L'', 1, ord CHR ''w'', 0x10],
        Receive 1, Sleep (1 / 2),
        Send [ord CHR ''2'', ord CHR ''L'', 3, ord CHR ''R''],
        Receive 1, Receive 3]
   \<and> sends (snd (readRegister (scripted [(1, [0x01]), (1, [0x03]), (1, [0x11, 0x22, 0x33])])
                  False 0x14 0x10 3 (1 / 2) [])) =
       [[ord CHR ''2'', ord CHR ''A'', 0x14, ord CHR ''L'', 1, ord CHR ''w'', 0x10],
        [ord CHR ''2'', ord CHR ''L'', 3, ord CHR ''R'']]
   \<and> sends (snd (readRegister (scripted [(- 1, [])]) False 0x14 0x10 3 (1 / 2) [])) =
       [[ord CHR ''2'', ord CHR ''A'', 0x14, ord CHR ''L'', 1, ord CHR ''w'', 0x10]]
   \<and> sends (snd (readRegister (scripted []) False 0x14 0x10 3 (1 / 2) [])) =
       [[ord CHR ''2'', ord CHR ''A'', 0x14, ord CHR ''L'', 1, ord CHR ''w'', 0x10]]"
proof -
  have pos: "(0::real) < 1 / 2" by simp
  have full: "snd (readRegister (scripted [(1, [0x01]), (1, [0x03]), (1, [0x11, 0x22, 0x33])])
            False 0x14 0x10 3 (1 / 2) []) =
       [Send [ord CHR ''2'', ord CHR ''A'', 0x14, ord CHR ''L'', 1, ord CHR ''w'', 0x10],
        Receive 1, Sleep (1 / 2),
        Send [ord CHR ''2'', ord CHR ''L'', 3, ord CHR ''R''],
        Receive 1, Receive 3]"
    by (simp add: readRegister_def readRegister_select_def comm_send_def comm_receive_def
          time_sleep_def scripted_def pkt_defs cmd_defs Let_def)
  show ?thesis
    using pos full
      readRegister_positive_delay [OF pos, where tr = "[]"
        and rx = "scripted [(1, [0x01]), (1, [0x03]), (1, [0x11, 0x22, 0x33])]"
        and v = False and dev = "0x14" and reg = "0x10" and N = 3]
      readRegister_positive_delay [OF pos, where tr = "[]" and rx = "scripted [(- 1, [])]"
        and v = False and dev = "0x14" and reg = "0x10" and N = 3]
      readRegister_positive_delay [OF pos, where tr = "[]" and rx = "scripted []"
        and v = False and dev = "0x14" and reg = "0x10" and N = 3]
    by (simp add: scripted_def Let_def)
qed

text \<open>
  Claim C7 as first stated fails where the register selection is answered with a
  firmware error code: with the acknowledgment byte \<^verbatim>\<open>0x4C\<close> (the key of \<^verbatim>\<open>'LENGTH'\<close>
  in \<^verbatim>\<open>self.ERROR\<close>) received under status 1, the call sleeps and sends the read
  request all the same.
\<close>

theorem readRegister_delay_error_ack_byte_counterexample:
  "snd (readRegister (scripted [(1, [0x4C]), (1, [0x03]), (1, [0x11, 0x22, 0x33])])
          False 0x14 0x10 3 (1 / 2) []) =
     [Send [ord CHR ''2'', ord CHR ''A'', 0x14, ord CHR ''L'', 1, ord CHR ''w'', 0x10],
      Receive 1, Sleep (1 / 2),
      Send [ord CHR ''2'', ord CHR ''L'', 3, ord CHR ''R''],
      Receive 1, Receive 3]
   \<and> sends (snd (readRegister (scripted [(1, [0x4C]), (1, [0x03]), (1, [0x11, 0x22, 0x33])])
                   False 0x14 0x10 3 (1 / 2) [])) =
     [[ord CHR ''2'', ord CHR ''A'', 0x14, ord CHR ''L'', 1, ord CHR ''w'', 0x10],
      [ord CHR ''2'', ord CHR ''L'', 3, ord CHR ''R'']]
   \<and> ERROR 0x4C = Some ''LENGTH''"
  by (simp add: readRegister_def readRegister_select_def comm_send_def comm_receive_def
        time_sleep_def scripted_def pkt_defs cmd_defs ERROR_def error_defs Let_def)

subsection \<open>The length entry\<close>

text \<open>
  Claim C8. In the packet sent by \<^verbatim>\<open>writeRaw\<close>, in the packet sent by \<^verbatim>\<open>writeRegister\<close>
  and in the write-restart segment that opens the first packet of \<^verbatim>\<open>readRegister\<close>
  (its first seven bytes), the entry after \<^verbatim>\<open>'L'\<close> equals the number of bytes that follow
  the command byte in that segment: \<^verbatim>\<open>len(vByte)\<close> for \<^verbatim>\<open>writeRaw\<close>, \<^verbatim>\<open>len(vByte)+1\<close>
  for \<^verbatim>\<open>writeRegister\<close> (the register byte is counted) and 1 for the write-restart
  segment.
\<close>

theorem payload_length_counts_following_bytes:
  "sends (snd (writeRaw rx v dev vByte tr)) = sends tr @ [writeRaw_vDat dev vByte]
   \<and> writeRaw_vDat dev vByte ! 3 = ord CHR ''L''
   \<and> drop 5 (writeRaw_vDat dev vByte) = ord CHR ''W'' # vByte
   \<and> writeRaw_vDat dev vByte ! 4 = int (length (drop 6 (writeRaw_vDat dev vByte)))
   \<and> writeRaw_vDat dev vByte ! 4 = int (length vByte)
   \<and> sends (snd (writeRegister rx v dev reg vByte tr)) = sends tr @ [writeRegister_vDat dev reg vByte]
   \<and> writeRegister_vDat dev reg vByte ! 3 = ord CHR ''L''
   \<and> drop 5 (writeRegister_vDat dev reg vByte) = ord CHR ''W'' # reg # vByte
   \<and> writeRegister_vDat dev reg vByte ! 4 = int (length (drop 6 (writeRegister_vDat dev reg vByte)))
   \<and> writeRegister_vDat dev reg vByte ! 4 = int (length vByte) + 1
   \<and> take 7 (sends (snd (readRegister rx v dev reg N delay tr)) ! length (sends tr)) =
       readRegister_vHdr dev reg
   \<and> readRegister_vHdr dev reg ! 3 = ord CHR ''L''
   \<and> drop 5 (readRegister_vHdr dev reg) = [ord CHR ''w'', reg]
   \<and> readRegister_vHdr dev reg ! 4 = int (length (drop 6 (readRegister_vHdr dev reg)))
   \<and> readRegister_vHdr dev reg ! 4 = 1"
proof -
  have raw: "sends (snd (writeRaw rx v dev vByte tr)) = sends tr @ [writeRaw_vDat dev vByte]"
    by (simp add: writeRaw_trace sends_append)
  have reg: "sends (snd (writeRegister rx v dev reg vByte tr)) =
      sends tr @ [writeRegister_vDat dev reg vByte]"
    by (simp add: writeRegister_trace sends_append)
  have first: "\<exists>rest. sends (snd (readRegister rx v dev reg N delay tr)) =
      sends tr @ (if delay \<le> 0 then readRegister_vHdr dev reg @ readRegister_vRd N
                  else readRegister_vHdr dev reg) # rest"
  proof (cases "fst (rx (tr @ [Send (if delay \<le> 0
        then readRegister_vHdr dev reg @ readRegister_vRd N
        else readRegister_vHdr dev reg)]) 1) \<in> {0, - 1}")
    case True
    then show ?thesis
      by (simp add: readRegister_rejected sends_append)
  next
    case False
    then show ?thesis
      by (simp add: readRegister_accepted [where tr' = "if delay \<le> 0
            then tr @ [Send (readRegister_vHdr dev reg @ readRegister_vRd N), Receive 1]
            else tr @ [Send (readRegister_vHdr dev reg), Receive 1, Sleep delay,
                       Send (readRegister_vRd N)]"] sends_append split: list.split)
  qed
  have rd: "take 7 (sends (snd (readRegister rx v dev reg N delay tr)) ! length (sends tr)) =
       readRegister_vHdr dev reg"
  proof -
    from first obtain rest where
      "sends (snd (readRegister rx v dev reg N delay tr)) =
        sends tr @ (if delay \<le> 0 then readRegister_vHdr dev reg @ readRegister_vRd N
                  else readRegister_vHdr dev reg) # rest" ..
    then show ?thesis
      by (simp add: nth_append readRegister_vHdr_def)
  qed
  show ?thesis
    using raw reg rd
    by (simp add: writeRaw_vDat_def writeRegister_vDat_def readRegister_vHdr_def cmd_defs)
qed

subsection \<open>Verbose raw writes\<close>

text \<open>
  Claim C9. For every call \<^verbatim>\<open>writeRaw(dev, vByte)\<close> with the verbose flag set: if the
  receive reports a non-zero status and at least one byte, the call raises
  \<^verbatim>\<open>NameError\<close> instead of returning, because its logging statement names \<^verbatim>\<open>reg\<close>.
\<close>

theorem writeRaw_verbose_NameError:
  assumes "rx (tr @ [Send (writeRaw_vDat dev vByte)]) 1 = (status, res # rest)"
    and "status \<noteq> 0"
  shows "fst (writeRaw rx True dev vByte tr) = Inl NameError"
  using assms by (simp add: writeRaw_def comm_send_def comm_receive_def Let_def)

theorem writeRaw_verbose_NameError_witness:
  "scripted [(1, [0x4E])] ([] @ [Send (writeRaw_vDat 0x14 [0, 1, 2])]) 1 = (1, 0x4E # [])
   \<and> (1::int) \<noteq> 0
   \<and> fst (writeRaw (scripted [(1, [0x4E])]) True 0x14 [0, 1, 2] []) = Inl NameError"
proof -
  have r: "scripted [(1, [0x4E])] ([] @ [Send (writeRaw_vDat 0x14 [0, 1, 2])]) 1 = (1, 0x4E # [])"
    by (simp add: scripted_def)
  have s: "(1::int) \<noteq> 0" by simp
  show ?thesis
    using r s writeRaw_verbose_NameError [where rx = "scripted [(1, [0x4E])]" and tr = "[]"
        and dev = "0x14" and vByte = "[0, 1, 2]" and status = 1 and res = "0x4E" and rest = "[]"]
    by simp
qed

subsection \<open>Failed reads\<close>

text \<open>
  Claim C10 says that every failure path of \<^verbatim>\<open>readRaw\<close> and \<^verbatim>\<open>readRegister\<close> returns
  the integer \<open>-1\<close>, with no exception and no partial list. The code does not keep to
  it. The count and payload receives are tested with \<^verbatim>\<open>reply[0] != 0\<close> alone, although
  the status of a failed receive is \<open>-1\<close> (\<^verbatim>\<open>self.RES\<close> maps it to \<^verbatim>\<open>'ERR'\<close>, and the
  acknowledgment test of \<^verbatim>\<open>readRegister\<close> excludes it). When the count receive comes
  back with status \<open>-1\<close> and no byte, \<^verbatim>\<open>reply[1][0]\<close> raises \<^verbatim>\<open>IndexError\<close>, in
  \<^verbatim>\<open>readRaw\<close> and in \<^verbatim>\<open>readRegister\<close>; when the payload receive comes back with status
  \<open>-1\<close> and one byte of the three asked for, that one byte is returned as the result.
\<close>

theorem read_error_status_not_caught:
  "fst (readRaw (scripted [(- 1, [])]) False 0x14 3 []) = Inl IndexError
   \<and> fst (readRegister (scripted [(1, [0x01]), (- 1, [])]) False 0x14 0x10 3 0 []) =
       Inl IndexError
   \<and> fst (readRegister (scripted [(1, [0x01]), (- 1, [])]) False 0x14 0x10 3 (1 / 2) []) =
       Inl IndexError
   \<and> fst (readRaw (scripted [(1, [0x03]), (- 1, [0x11])]) False 0x14 3 []) = Inr (PyList [0x11])
   \<and> fst (readRegister (scripted [(1, [0x01]), (1, [0x03]), (- 1, [0x11])])
            False 0x14 0x10 3 0 []) = Inr (PyList [0x11])
   \<and> RES (- 1) = Some ''ERR''"
  by (simp add: readRaw_def readRegister_def readRegister_select_def comm_send_def
        comm_receive_def time_sleep_def scripted_def RES_def Let_def)

text \<open>
  Where the status tested is 0 (for the acknowledgment, 0 or -1) the sentinel is
  returned, and where every status tested is non-zero and the count reply holds a byte
  the result is the list of the payload reply.
\<close>

lemma read_status_zero_returns_minus_one:
  "(let t1 = tr @ [Send (readRaw_vHdr dev N)];
        t2 = t1 @ [Receive 1];
        r = fst (readRaw rx v dev N tr)
    in (fst (rx t1 1) = 0 \<longrightarrow> r = Inr (PyInt (- 1)))
     \<and> (fst (rx t1 1) \<noteq> 0 \<and> snd (rx t1 1) = k # ks \<and> fst (rx t2 k) = 0
          \<longrightarrow> r = Inr (PyInt (- 1)))
     \<and> (fst (rx t1 1) \<noteq> 0 \<and> snd (rx t1 1) = k # ks \<and> fst (rx t2 k) \<noteq> 0
          \<longrightarrow> r = Inr (PyList (snd (rx t2 k)))))
   \<and> (let u1 = tr @ [Send (if delay \<le> 0 then readRegister_vHdr dev reg @ readRegister_vRd N
                             else readRegister_vHdr dev reg)];
            u2 = (if delay \<le> 0 then u1 @ [Receive 1]
                  else u1 @ [Receive 1, Sleep delay, Send (readRegister_vRd N)]);
            u3 = u2 @ [Receive 1];
            q = fst (readRegister rx v dev reg N delay tr)
        in (fst (rx u1 1) = 0 \<or> fst (rx u1 1) = - 1 \<longrightarrow> q = Inr (PyInt (- 1)))
         \<and> (fst (rx u1 1) \<noteq> 0 \<and> fst (rx u1 1) \<noteq> - 1 \<and> fst (rx u2 1) = 0
              \<longrightarrow> q = Inr (PyInt (- 1)))
         \<and> (fst (rx u1 1) \<noteq> 0 \<and> fst (rx u1 1) \<noteq> - 1 \<and> fst (rx u2 1) \<noteq> 0
              \<and> snd (rx u2 1) = k' # ks' \<and> fst (rx u3 k') = 0
              \<longrightarrow> q = Inr (PyInt (- 1)))
         \<and> (fst (rx u1 1) \<noteq> 0 \<and> fst (rx u1 1) \<noteq> - 1 \<and> fst (rx u2 1) \<noteq> 0
              \<and> snd (rx u2 1) = k' # ks' \<and> fst (rx u3 k') \<noteq> 0
              \<longrightarrow> q = Inr (PyList (snd (rx u3 k')))))"
proof -
  have raw: "(let t1 = tr @ [Send (readRaw_vHdr dev N)];
        t2 = t1 @ [Receive 1];
        r = fst (readRaw rx v dev N tr)
    in (fst (rx t1 1) = 0 \<longrightarrow> r = Inr (PyInt (- 1)))
     \<and> (fst (rx t1 1) \<noteq> 0 \<and> snd (rx t1 1) = k # ks \<and> fst (rx t2 k) = 0
          \<longrightarrow> r = Inr (PyInt (- 1)))
     \<and> (fst (rx t1 1) \<noteq> 0 \<and> snd (rx t1 1) = k # ks \<and> fst (rx t2 k) \<noteq> 0
          \<longrightarrow> r = Inr (PyList (snd (rx t2 k)))))"
    by (simp add: readRaw_unfold Let_def)
  define u1 where "u1 = tr @ [Send (if delay \<le> 0
      then readRegister_vHdr dev reg @ readRegister_vRd N else readRegister_vHdr dev reg)]"
  define u2 where "u2 = (if delay \<le> 0 then u1 @ [Receive 1]
                  else u1 @ [Receive 1, Sleep delay, Send (readRegister_vRd N)])"
  have u2: "u2 = (if delay \<le> 0
            then tr @ [Send (readRegister_vHdr dev reg @ readRegister_vRd N), Receive 1]
            else tr @ [Send (readRegister_vHdr dev reg), Receive 1, Sleep delay,
                       Send (readRegister_vRd N)])"
    by (simp add: u2_def u1_def)
  have rej: "fst (readRegister rx v dev reg N delay tr) = Inr (PyInt (- 1))"
    if "fst (rx u1 1) = 0 \<or> fst (rx u1 1) = - 1"
    using that unfolding u1_def by (auto simp add: readRegister_rejected)
  have acc: "fst (readRegister rx v dev reg N delay tr) =
      (if fst (rx u2 1) \<noteq> 0 then
              (case snd (rx u2 1) of
                 [] \<Rightarrow> Inl IndexError
               | n # _ \<Rightarrow>
                   (if fst (rx (u2 @ [Receive 1]) n) \<noteq> 0
                    then Inr (PyList (snd (rx (u2 @ [Receive 1]) n)))
                    else Inr (PyInt (- 1))))
            else Inr (PyInt (- 1)))"
    if "fst (rx u1 1) \<noteq> 0" "fst (rx u1 1) \<noteq> - 1"
    using that unfolding u1_def
    by (simp add: readRegister_accepted [OF _ u2] split: list.split)
  have reg: "(let u3 = u2 @ [Receive 1];
            q = fst (readRegister rx v dev reg N delay tr)
        in (fst (rx u1 1) = 0 \<or> fst (rx u1 1) = - 1 \<longrightarrow> q = Inr (PyInt (- 1)))
         \<and> (fst (rx u1 1) \<noteq> 0 \<and> fst (rx u1 1) \<noteq> - 1 \<and> fst (rx u2 1) = 0
              \<longrightarrow> q = Inr (PyInt (- 1)))
         \<and> (fst (rx u1 1) \<noteq> 0 \<and> fst (rx u1 1) \<noteq> - 1 \<and> fst (rx u2 1) \<noteq> 0
              \<and> snd (rx u2 1) = k' # ks' \<and> fst (rx u3 k') = 0
              \<longrightarrow> q = Inr (PyInt (- 1)))
         \<and> (fst (rx u1 1) \<noteq> 0 \<and> fst (rx u1 1) \<noteq> - 1 \<and> fst (rx u2 1) \<noteq> 0
              \<and> snd (rx u2 1) = k' # ks' \<and> fst (rx u3 k') \<noteq> 0
              \<longrightarrow> q = Inr (PyList (snd (rx u3 k')))))"
    using rej acc by (simp add: Let_def)
  show ?thesis
    using raw reg unfolding u2_def u1_def by (simp add: Let_def)
qed

end
